theory Spec2Isabelle
  imports Complex_Main "HOL-Library.Word"
begin

section \<open>The bulk repository deletion script\<close>

text \<open>
  A shallow embedding of \<^verbatim>\<open>scripts/delete_all_repos.py\<close>. Every function of the script is
  a HOL function of the same name. What the script reads and writes outside its own
  variables is a field of the record \<open>world\<close>: the process environment, the optional
  \<^verbatim>\<open>.env.local\<close> file, the operator's input, the printed lines, the state of the remote
  provider and the log of the requests sent to it. A Python exception is a value of the
  type \<open>exn\<close>, returned on the left of a sum.
\<close>

subsection \<open>Python strings\<close>

text \<open>
  A Python \<^verbatim>\<open>str\<close> is a sequence of Unicode code points, so it is a list of naturals here.
  \<open>lit\<close> turns an ASCII literal into such a list.
\<close>

type_synonym str = "nat list"

abbreviation lit :: "string \<Rightarrow> str" where
  "lit s \<equiv> map of_char s"

text \<open>The code points that \<^verbatim>\<open>str.strip()\<close> removes: those for which \<^verbatim>\<open>str.isspace()\<close> holds.\<close>

definition isspace :: "nat \<Rightarrow> bool" where
  "isspace c = ((9 \<le> c \<and> c \<le> 13) \<or> (28 \<le> c \<and> c \<le> 32) \<or> c = 133 \<or> c = 160
     \<or> c = 5760 \<or> (8192 \<le> c \<and> c \<le> 8202) \<or> c = 8232 \<or> c = 8233 \<or> c = 8239
     \<or> c = 8287 \<or> c = 12288)"

definition strip_with :: "(nat \<Rightarrow> bool) \<Rightarrow> str \<Rightarrow> str" where
  "strip_with p s = rev (dropWhile p (rev (dropWhile p s)))"

text \<open>\<^verbatim>\<open>s.strip()\<close> and \<^verbatim>\<open>s.strip(chars)\<close>.\<close>

definition strip :: "str \<Rightarrow> str" where
  "strip s = strip_with isspace s"

definition strip_chars :: "str \<Rightarrow> str \<Rightarrow> str" where
  "strip_chars chars s = strip_with (\<lambda>c. c \<in> set chars) s"

definition startswith :: "str \<Rightarrow> str \<Rightarrow> bool" where
  "startswith s p = (take (length p) s = p)"

text \<open>The line boundaries of \<^verbatim>\<open>str.splitlines()\<close>; a carriage return followed by a line feed
  is one boundary, and a final boundary opens no empty line.\<close>

definition is_linebreak :: "nat \<Rightarrow> bool" where
  "is_linebreak c = ((10 \<le> c \<and> c \<le> 13) \<or> (28 \<le> c \<and> c \<le> 30) \<or> c = 133
     \<or> c = 8232 \<or> c = 8233)"

fun splitlines_from :: "str \<Rightarrow> str \<Rightarrow> str list" where
  "splitlines_from cur [] = (if cur = [] then [] else [cur])"
| "splitlines_from cur [c] = (if is_linebreak c then [cur] else [cur @ [c]])"
| "splitlines_from cur (c # d # cs) =
     (if c = 13 \<and> d = 10 then cur # splitlines_from [] cs
      else if is_linebreak c then cur # splitlines_from [] (d # cs)
      else splitlines_from (cur @ [c]) (d # cs))"

definition splitlines :: "str \<Rightarrow> str list" where
  "splitlines s = splitlines_from [] s"

subsection \<open>Bytes and their UTF-8 decoding\<close>

text \<open>
  \<^verbatim>\<open>bytes.decode("utf-8")\<close> with the default strict error handling: \<open>None\<close> stands for
  \<^verbatim>\<open>UnicodeDecodeError\<close>. \<open>utf8_first\<close> reads one code point and returns the rest.
\<close>

definition cont :: "8 word \<Rightarrow> bool" where
  "cont b = (0x80 \<le> b \<and> b \<le> 0xBF)"

definition utf8_first :: "8 word list \<Rightarrow> (nat \<times> 8 word list) option" where
  "utf8_first bs =
    (case bs of
       [] \<Rightarrow> None
     | b # r1 \<Rightarrow>
        if b < 0x80 then Some (unat b, r1)
        else if 0xC2 \<le> b \<and> b \<le> 0xDF then
          (case r1 of
             c1 # r \<Rightarrow>
               if cont c1 then Some ((unat b - 0xC0) * 64 + (unat c1 - 0x80), r) else None
           | _ \<Rightarrow> None)
        else if 0xE0 \<le> b \<and> b \<le> 0xEF then
          (case r1 of
             c1 # c2 # r \<Rightarrow>
               if cont c1 \<and> cont c2 \<and> (0xE1 \<le> b \<or> 0xA0 \<le> c1)
                  \<and> (b < 0xED \<or> 0xED < b \<or> c1 \<le> 0x9F)
               then Some ((unat b - 0xE0) * 4096 + (unat c1 - 0x80) * 64 + (unat c2 - 0x80), r)
               else None
           | _ \<Rightarrow> None)
        else if 0xF0 \<le> b \<and> b \<le> 0xF4 then
          (case r1 of
             c1 # c2 # c3 # r \<Rightarrow>
               if cont c1 \<and> cont c2 \<and> cont c3 \<and> (0xF1 \<le> b \<or> 0x90 \<le> c1)
                  \<and> (b < 0xF4 \<or> c1 \<le> 0x8F)
               then Some ((unat b - 0xF0) * 262144 + (unat c1 - 0x80) * 4096
                            + (unat c2 - 0x80) * 64 + (unat c3 - 0x80), r)
               else None
           | _ \<Rightarrow> None)
        else None)"

lemma utf8_first_shorter: "utf8_first bs = Some (c, r) \<Longrightarrow> length r < length bs"
  by (auto simp: utf8_first_def split: list.splits if_splits)

function utf8_decode :: "8 word list \<Rightarrow> str option" where
  "utf8_decode bs =
     (if bs = [] then Some []
      else case utf8_first bs of
             None \<Rightarrow> None
           | Some (c, r) \<Rightarrow> map_option (Cons c) (utf8_decode r))"
  by pat_completeness auto
termination
  by (relation "measure length") (auto dest: utf8_first_shorter)

declare utf8_decode.simps [simp del]

subsection \<open>JSON values\<close>

text \<open>
  What \<^verbatim>\<open>json.loads\<close> returns. \<open>JNull\<close> is Python's \<^verbatim>\<open>None\<close>, a \<open>JDict\<close> is a \<^verbatim>\<open>dict\<close> given as
  the list of its items. \<open>truthy\<close> is the truth value Python gives to a value in
  \<^verbatim>\<open>if body\<close> and \<^verbatim>\<open>not body\<close>.
\<close>

datatype json =
    JNull
  | JBool bool
  | JInt int
  | JFloat real
  | JStr str
  | JList "json list"
  | JDict "(str \<times> json) list"

fun truthy :: "json \<Rightarrow> bool" where
  "truthy JNull = False"
| "truthy (JBool b) = b"
| "truthy (JInt i) = (i \<noteq> 0)"
| "truthy (JFloat r) = (r \<noteq> 0)"
| "truthy (JStr s) = (s \<noteq> [])"
| "truthy (JList xs) = (xs \<noteq> [])"
| "truthy (JDict kvs) = (kvs \<noteq> [])"

fun is_list :: "json \<Rightarrow> bool" where
  "is_list (JList xs) = True"
| "is_list _ = False"

fun items :: "json \<Rightarrow> json list" where
  "items (JList xs) = xs"
| "items _ = []"

subsection \<open>Exceptions, printed lines, requests\<close>

datatype exit_msg =
    EnvNotSet str
  | ListFailed int json
  | UnexpectedFormat json

datatype exit_arg = ExitCode int | ExitMsg exit_msg

datatype exn =
    SystemExit exit_arg
  | KeyboardInterrupt
  | EOFError
  | AttributeError
  | UnicodeDecodeError
  | URLError
  | ValueError
  | RecursionError

text \<open>\<^verbatim>\<open>repo.get(key, default)\<close>: a value that is no \<^verbatim>\<open>dict\<close> has no method \<^verbatim>\<open>get\<close>.\<close>

fun dict_get :: "json \<Rightarrow> str \<Rightarrow> json \<Rightarrow> exn + json" where
  "dict_get (JDict kvs) key dflt =
     (case map_of kvs key of None \<Rightarrow> Inr dflt | Some v \<Rightarrow> Inr v)"
| "dict_get _ key dflt = Inl AttributeError"

text \<open>
  The two URLs the script builds are kept as their parts: the organization, page and page
  size of the listing URL, the organization and repository name of the deletion URL.
\<close>

datatype url =
    OrgRepos str nat nat
  | RepoUrl str json

datatype request = Request (verb: str) (target: url) (bearer: str)

text \<open>
  A printed line is kept as the kind of line it is, with the values the script formats into
  it: a constructor of \<open>msg\<close> for each \<^verbatim>\<open>print\<close> of the script that carries a value or marks a
  step. The rules of \<^verbatim>\<open>=\<close> signs around the banners are left out, and so is the standard error,
  where the interpreter writes the message of an uncaught \<^verbatim>\<open>SystemExit\<close>.
\<close>

datatype visibility = Public | Private

datatype error_msg = Dumps json | HttpStatus int

datatype delete_msg =
    Deleted_msg json
  | NotFound_msg json
  | Failed_msg json error_msg

datatype msg =
    EnvFileNotFound
  | LoadingEnv
  | TargetOrg str
  | Fetching str
  | FetchedPage nat nat nat
  | NoRepos str
  | Found nat
  | RepoLine nat json visibility
  | ConfirmBanner nat str
  | ConfirmationReceived
  | OperationCancelled
  | DeletingHeader
  | Deleting nat nat json
  | DeleteResult delete_msg
  | Summary nat nat nat
  | Interrupted
  | ErrorMsg exn

subsection \<open>The world outside the script\<close>

text \<open>
  What \<^verbatim>\<open>urllib.request.urlopen\<close> does with a request: a response with its status and body
  bytes, an \<^verbatim>\<open>HTTPError\<close> with its code and, when it has one, its body, any other failure
  of the transport, or an interrupt of the operator while the call blocks. The operator can
  interrupt the run where the script waits: in a call to the provider, and at the prompt,
  where \<open>CtrlC\<close> stands for the interrupt and the end of \<open>stdin\<close> for the end of the input.
  \<open>env_file\<close> is the text \<^verbatim>\<open>read_text()\<close> returns for \<^verbatim>\<open>.env.local\<close>, \<open>None\<close> when the file
  does not exist.
\<close>

datatype http_result =
    Resp int "8 word list"
  | HTTPErr int "8 word list option"
  | NetFail
  | NetInterrupt

datatype stdin_event = Line str | CtrlC

record 'w world =
  environ :: "str \<rightharpoonup> str"
  env_file :: "str option"
  stdin :: "stdin_event list"
  stdout :: "msg list"
  server :: 'w
  sent :: "request list"

text \<open>
  What \<^verbatim>\<open>json.loads\<close> raises on a text: \<^verbatim>\<open>JSONDecodeError\<close> when the text is no JSON, the one
  exception the script expects of it, \<^verbatim>\<open>RecursionError\<close> when the text is nested deeper than
  the interpreter allows (\<open>TooDeep\<close>), and a plain \<^verbatim>\<open>ValueError\<close> when the text holds an integer
  of more digits than the interpreter converts (\<open>TooManyDigits\<close>).
\<close>

datatype loads_error = JSONDecodeError | TooDeep | TooManyDigits

text \<open>
  The library functions the script is written against: the remote provider behind
  \<^verbatim>\<open>urlopen\<close>, a state machine over its own state \<open>'w\<close>, and \<^verbatim>\<open>json.loads\<close>. Both are
  parameters of the script's functions: the properties hold for every provider and every
  JSON decoder, unless they say which.
\<close>

record 'w platform =
  urlopen :: "'w \<Rightarrow> request \<Rightarrow> http_result \<times> 'w"
  json_loads :: "str \<Rightarrow> loads_error + json"

definition println :: "msg \<Rightarrow> 'w world \<Rightarrow> 'w world" where
  "println m w = w\<lparr>stdout := stdout w @ [m]\<rparr>"

text \<open>\<^verbatim>\<open>input(prompt)\<close>: the next line of the operator, \<^verbatim>\<open>EOFError\<close> when there is none.\<close>

definition input_line :: "'w world \<Rightarrow> (exn + str) \<times> 'w world" where
  "input_line w =
     (case stdin w of
        [] \<Rightarrow> (Inl EOFError, w)
      | Line l # rest \<Rightarrow> (Inr l, w\<lparr>stdin := rest\<rparr>)
      | CtrlC # rest \<Rightarrow> (Inl KeyboardInterrupt, w\<lparr>stdin := rest\<rparr>))"

subsection \<open>\<^verbatim>\<open>load_env_from_file\<close> and \<^verbatim>\<open>get_env_var\<close>\<close>

text \<open>
  The loop over the lines of the file. \<^verbatim>\<open>os.environ[key] = value\<close> raises \<^verbatim>\<open>ValueError\<close> when
  the key or the value holds a null character.
\<close>

fun load_lines :: "str list \<Rightarrow> (str \<rightharpoonup> str) \<Rightarrow> (exn + unit) \<times> (str \<rightharpoonup> str)" where
  "load_lines [] env = (Inr (), env)"
| "load_lines (l # ls) env =
     (let line = strip l in
      if line = [] \<or> startswith line (lit ''#'') then load_lines ls env
      else if of_char CHR ''='' \<notin> set line then load_lines ls env
      else
        let key = strip (takeWhile (\<lambda>c. c \<noteq> of_char CHR ''='') line);
            val = strip_chars (lit [CHR 0x27])
                    (strip_chars (lit [CHR 0x22])
                      (strip (drop 1 (dropWhile (\<lambda>c. c \<noteq> of_char CHR ''='') line))))
        in if key \<noteq> [] \<and> env key = None
           then (if 0 \<in> set key \<or> 0 \<in> set val then (Inl ValueError, env)
                 else load_lines ls (env(key \<mapsto> val)))
           else load_lines ls env)"

definition load_env_from_file :: "'w world \<Rightarrow> (exn + unit) \<times> 'w world" where
  "load_env_from_file w =
     (case env_file w of
        None \<Rightarrow> (Inr (), println EnvFileNotFound w)
      | Some content \<Rightarrow>
          (let w1 = println LoadingEnv w;
               (r, env') = load_lines (splitlines content) (environ w1)
           in (r, w1\<lparr>environ := env'\<rparr>)))"

definition get_env_var :: "str \<Rightarrow> 'w world \<Rightarrow> exn + str" where
  "get_env_var name w =
     (case environ w name of
        None \<Rightarrow> Inl (SystemExit (ExitMsg (EnvNotSet name)))
      | Some v \<Rightarrow> if v = [] then Inl (SystemExit (ExitMsg (EnvNotSet name))) else Inr v)"

subsection \<open>\<^verbatim>\<open>build_request\<close> and \<^verbatim>\<open>call_github\<close>\<close>

definition build_request :: "str \<Rightarrow> url \<Rightarrow> str \<Rightarrow> request" where
  "build_request meth u tok = Request meth u tok"

text \<open>
  The second half of \<^verbatim>\<open>call_github\<close>: the body decoded from the raw text. The \<^verbatim>\<open>except\<close>
  clause catches \<^verbatim>\<open>JSONDecodeError\<close> and nothing else.
\<close>

definition parse_body :: "'w platform \<Rightarrow> str \<Rightarrow> exn + json" where
  "parse_body P raw =
     (if raw = [] then Inr JNull
      else case json_loads P raw of
             Inr b \<Rightarrow> Inr b
           | Inl JSONDecodeError \<Rightarrow> Inr (JDict [(lit ''raw'', JStr raw)])
           | Inl TooDeep \<Rightarrow> Inl RecursionError
           | Inl TooManyDigits \<Rightarrow> Inl ValueError)"

definition call_github :: "'w platform \<Rightarrow> request \<Rightarrow> 'w world \<Rightarrow> (exn + int \<times> json) \<times> 'w world" where
  "call_github P req w =
     (let (res, s') = urlopen P (server w) req;
          w' = w\<lparr>server := s', sent := sent w @ [req]\<rparr>
      in case res of
           Resp status bytes \<Rightarrow>
             (case utf8_decode bytes of
                None \<Rightarrow> (Inl UnicodeDecodeError, w')
              | Some raw \<Rightarrow>
                  (case parse_body P raw of
                     Inl e \<Rightarrow> (Inl e, w')
                   | Inr body \<Rightarrow> (Inr (status, body), w')))
         | HTTPErr code fp \<Rightarrow>
             (case fp of
                None \<Rightarrow>
                  (case parse_body P [] of
                     Inl e \<Rightarrow> (Inl e, w')
                   | Inr body \<Rightarrow> (Inr (code, body), w'))
              | Some bytes \<Rightarrow>
                  (case utf8_decode bytes of
                     None \<Rightarrow> (Inl UnicodeDecodeError, w')
                   | Some raw \<Rightarrow>
                       (case parse_body P raw of
                          Inl e \<Rightarrow> (Inl e, w')
                        | Inr body \<Rightarrow> (Inr (code, body), w'))))
         | NetFail \<Rightarrow> (Inl URLError, w')
         | NetInterrupt \<Rightarrow> (Inl KeyboardInterrupt, w'))"

subsection \<open>\<^verbatim>\<open>list_all_repos\<close>\<close>

definition per_page :: nat where
  "per_page = 100"

text \<open>
  The \<^verbatim>\<open>while True\<close> loop, with the page number and the list collected so far as its
  arguments. It has no bound of its own: against a provider that answers every request
  with a full page it does not return, which is the value \<open>None\<close>.
\<close>

partial_function (option) list_loop ::
  "'w platform \<Rightarrow> str \<Rightarrow> str \<Rightarrow> nat \<Rightarrow> json list \<Rightarrow> 'w world
     \<Rightarrow> ((exn + json list) \<times> 'w world) option" where
  "list_loop P org tok page repos w =
     (case call_github P (build_request (lit ''GET'') (OrgRepos org page per_page) tok) w of
        (Inl e, w1) \<Rightarrow> Some (Inl e, w1)
      | (Inr (status, body), w1) \<Rightarrow>
          if status \<noteq> 200 then Some (Inl (SystemExit (ExitMsg (ListFailed status body))), w1)
          else if \<not> truthy body \<or> \<not> is_list body
            then Some (Inl (SystemExit (ExitMsg (UnexpectedFormat body))), w1)
          else if length (items body) = 0 then Some (Inr repos, w1)
          else
            let repos' = repos @ items body;
                w2 = println (FetchedPage page (length (items body)) (length repos')) w1
            in if length (items body) < per_page then Some (Inr repos', w2)
               else list_loop P org tok (page + 1) repos' w2)"

definition list_all_repos ::
  "'w platform \<Rightarrow> str \<Rightarrow> str \<Rightarrow> 'w world \<Rightarrow> ((exn + json list) \<times> 'w world) option" where
  "list_all_repos P org tok w = list_loop P org tok 1 [] (println (Fetching org) w)"

subsection \<open>\<^verbatim>\<open>delete_repo\<close> and \<^verbatim>\<open>confirm_deletion\<close>\<close>

definition delete_repo ::
  "'w platform \<Rightarrow> str \<Rightarrow> str \<Rightarrow> json \<Rightarrow> 'w world \<Rightarrow> (exn + bool \<times> delete_msg) \<times> 'w world" where
  "delete_repo P org tok repo_name w =
     (case call_github P (build_request (lit ''DELETE'') (RepoUrl org repo_name) tok) w of
        (Inl e, w1) \<Rightarrow> (Inl e, w1)
      | (Inr (status, body), w1) \<Rightarrow>
          if status = 204 then (Inr (True, Deleted_msg repo_name), w1)
          else if status = 404 then (Inr (True, NotFound_msg repo_name), w1)
          else (Inr (False, Failed_msg repo_name
                              (if truthy body then Dumps body else HttpStatus status)), w1))"

definition confirm_deletion :: "nat \<Rightarrow> str \<Rightarrow> 'w world \<Rightarrow> (exn + bool) \<times> 'w world" where
  "confirm_deletion repo_count org w =
     (case input_line (println (ConfirmBanner repo_count org) w) of
        (Inl e, w1) \<Rightarrow> (Inl e, w1)
      | (Inr answer, w1) \<Rightarrow>
          (let confirmation = strip answer in
           if confirmation = lit ''DELETE ALL''
           then (Inr True, println ConfirmationReceived w1)
           else (Inr False, println OperationCancelled w1)))"

subsection \<open>\<^verbatim>\<open>main\<close> and the script\<close>

text \<open>The loop of \<^verbatim>\<open>main\<close> that displays the repositories, \<open>i\<close> counting from 1.\<close>

fun display_repos :: "nat \<Rightarrow> json list \<Rightarrow> 'w world \<Rightarrow> (exn + unit) \<times> 'w world" where
  "display_repos i [] w = (Inr (), w)"
| "display_repos i (repo # rest) w =
     (case dict_get repo (lit ''name'') (JStr (lit ''unknown'')) of
        Inl e \<Rightarrow> (Inl e, w)
      | Inr name \<Rightarrow>
          (case dict_get repo (lit ''private'') (JBool False) of
             Inl e \<Rightarrow> (Inl e, w)
           | Inr private \<Rightarrow>
               display_repos (i + 1) rest
                 (println (RepoLine i name (if truthy private then Private else Public)) w)))"

text \<open>
  The loop of \<^verbatim>\<open>main\<close> that deletes the repositories: \<open>n\<close> is \<^verbatim>\<open>len(repos)\<close>, \<open>i\<close> counts from 1,
  and the pair is \<^verbatim>\<open>(success_count, fail_count)\<close>.
\<close>

fun delete_loop ::
  "'w platform \<Rightarrow> str \<Rightarrow> str \<Rightarrow> nat \<Rightarrow> nat \<Rightarrow> json list \<Rightarrow> nat \<times> nat \<Rightarrow> 'w world
     \<Rightarrow> (exn + nat \<times> nat) \<times> 'w world" where
  "delete_loop P org tok n i [] (success_count, fail_count) w =
     (Inr (success_count, fail_count), w)"
| "delete_loop P org tok n i (repo # rest) (success_count, fail_count) w =
     (case dict_get repo (lit ''name'') (JStr (lit ''unknown'')) of
        Inl e \<Rightarrow> (Inl e, w)
      | Inr name \<Rightarrow>
          (case delete_repo P org tok name (println (Deleting i n name) w) of
             (Inl e, w1) \<Rightarrow> (Inl e, w1)
           | (Inr (success, message), w1) \<Rightarrow>
               if success
               then delete_loop P org tok n (i + 1) rest (success_count + 1, fail_count)
                      (println (DeleteResult message) w1)
               else delete_loop P org tok n (i + 1) rest (success_count, fail_count + 1)
                      (println (DeleteResult message) w1)))"

definition main :: "'w platform \<Rightarrow> 'w world \<Rightarrow> ((exn + unit) \<times> 'w world) option" where
  "main P w0 =
     (case load_env_from_file w0 of
        (Inl e, w1) \<Rightarrow> Some (Inl e, w1)
      | (Inr u, w1) \<Rightarrow>
     (case get_env_var (lit ''GITHUB_ORG_NAME'') w1 of
        Inl e \<Rightarrow> Some (Inl e, w1)
      | Inr org \<Rightarrow>
     (case get_env_var (lit ''GITHUB_PAT'') w1 of
        Inl e \<Rightarrow> Some (Inl e, w1)
      | Inr tok \<Rightarrow>
     (case list_all_repos P org tok (println (TargetOrg org) w1) of
        None \<Rightarrow> None
      | Some (Inl e, w2) \<Rightarrow> Some (Inl e, w2)
      | Some (Inr repos, w2) \<Rightarrow>
          if length repos = 0 then Some (Inr (), println (NoRepos org) w2)
          else
     (case display_repos 1 repos (println (Found (length repos)) w2) of
        (Inl e, w3) \<Rightarrow> Some (Inl e, w3)
      | (Inr u, w3) \<Rightarrow>
     (case confirm_deletion (length repos) org w3 of
        (Inl e, w4) \<Rightarrow> Some (Inl e, w4)
      | (Inr confirmed, w4) \<Rightarrow>
          if \<not> confirmed then Some (Inl (SystemExit (ExitCode 1)), w4)
          else
     (case delete_loop P org tok (length repos) 1 repos (0, 0) (println DeletingHeader w4) of
        (Inl e, w5) \<Rightarrow> Some (Inl e, w5)
      | (Inr (success_count, fail_count), w5) \<Rightarrow>
          Some (Inr (), println (Summary (length repos) success_count fail_count) w5))))))))"

text \<open>
  The block under \<^verbatim>\<open>if __name__ == "__main__"\<close>, with the exit status of the process as its
  result: 0 when \<^verbatim>\<open>main\<close> returns, the argument of an uncaught \<^verbatim>\<open>SystemExit\<close> when it is a
  number, 1 when it is a message (which the interpreter prints). \<^verbatim>\<open>SystemExit\<close> derives from
  \<^verbatim>\<open>BaseException\<close> only, so \<^verbatim>\<open>except Exception\<close> does not catch it; it catches the
  other exceptions of \<open>exn\<close>, apart from \<^verbatim>\<open>KeyboardInterrupt\<close>, which has its own handler.
\<close>

fun exit_status :: "exit_arg \<Rightarrow> int" where
  "exit_status (ExitCode n) = n"
| "exit_status (ExitMsg m) = 1"

definition script :: "'w platform \<Rightarrow> 'w world \<Rightarrow> (int \<times> 'w world) option" where
  "script P w0 =
     (case main P w0 of
        None \<Rightarrow> None
      | Some (Inr u, w1) \<Rightarrow> Some (0, w1)
      | Some (Inl KeyboardInterrupt, w1) \<Rightarrow> Some (1, println Interrupted w1)
      | Some (Inl (SystemExit a), w1) \<Rightarrow> Some (exit_status a, w1)
      | Some (Inl e, w1) \<Rightarrow> Some (1, println (ErrorMsg e) w1))"

subsection \<open>Vocabulary of the properties\<close>

text \<open>
  Vocabulary for the properties of the deletion loop: the outcomes among the printed lines,
  the three kinds of outcome (the repository was deleted, it was already absent, the
  deletion failed), and the request \<^verbatim>\<open>delete_repo\<close> sends for a name.
\<close>

fun delete_results :: "msg list \<Rightarrow> delete_msg list" where
  "delete_results [] = []"
| "delete_results (DeleteResult m # ms) = m # delete_results ms"
| "delete_results (_ # ms) = delete_results ms"

fun is_deleted :: "delete_msg \<Rightarrow> bool" where
  "is_deleted (Deleted_msg name) = True"
| "is_deleted _ = False"

fun is_absent :: "delete_msg \<Rightarrow> bool" where
  "is_absent (NotFound_msg name) = True"
| "is_absent _ = False"

fun is_failure :: "delete_msg \<Rightarrow> bool" where
  "is_failure (Failed_msg name e) = True"
| "is_failure _ = False"

definition DELETE_request :: "str \<Rightarrow> str \<Rightarrow> json \<Rightarrow> request" where
  "DELETE_request org tok name = build_request (lit ''DELETE'') (RepoUrl org name) tok"

text \<open>The request \<^verbatim>\<open>list_all_repos\<close> sends for a page.\<close>

definition GET_request :: "str \<Rightarrow> str \<Rightarrow> nat \<Rightarrow> request" where
  "GET_request org tok page = build_request (lit ''GET'') (OrgRepos org page per_page) tok"

text \<open>
  Vocabulary for what the provider answers. An answer has a status and body bytes when it
  is a response or an \<^verbatim>\<open>HTTPError\<close>; an \<^verbatim>\<open>HTTPError\<close> without a body reads as the empty text. An
  answer is \<open>readable\<close> when it has a status, its bytes are UTF-8 text, and the text is empty
  or \<^verbatim>\<open>json.loads\<close> either returns on it or raises \<^verbatim>\<open>JSONDecodeError\<close>. \<open>answers\<close> is the list of
  what the provider, starting in state \<open>s\<close>, answers to a list of requests sent one after the
  other.
\<close>

fun status_of :: "http_result \<Rightarrow> int option" where
  "status_of (Resp status bytes) = Some status"
| "status_of (HTTPErr code fp) = Some code"
| "status_of _ = None"

fun body_of :: "http_result \<Rightarrow> 8 word list option" where
  "body_of (Resp status bytes) = Some bytes"
| "body_of (HTTPErr code None) = Some []"
| "body_of (HTTPErr code (Some bytes)) = Some bytes"
| "body_of _ = None"

definition readable :: "'w platform \<Rightarrow> http_result \<Rightarrow> bool" where
  "readable P res =
     (case body_of res of
        None \<Rightarrow> False
      | Some bytes \<Rightarrow>
          (case utf8_decode bytes of
             None \<Rightarrow> False
           | Some raw \<Rightarrow>
               raw = [] \<or> (case json_loads P raw of
                              Inr b \<Rightarrow> True
                            | Inl e \<Rightarrow> e = JSONDecodeError)))"


subsection \<open>Worlds and providers for concrete runs\<close>

text \<open>A world with an empty environment and no file, in which the operator types \<open>inp\<close>.\<close>

definition quiet_world :: "stdin_event list \<Rightarrow> unit world" where
  "quiet_world inp =
     \<lparr>environ = Map.empty, env_file = None, stdin = inp, stdout = [], server = (), sent = []\<rparr>"

text \<open>A world whose file sets a variable that the environment already has, and one it has not.\<close>

definition env_world :: "unit world" where
  "env_world =
     \<lparr>environ = [lit ''GITHUB_PAT'' \<mapsto> lit ''real''],
      env_file = Some (lit ''# local'' @ [10] @ lit ''GITHUB_PAT=fake'' @ [10]
                         @ lit ''GITHUB_ORG_NAME = \"acme\"'' @ [10]),
      stdin = [], stdout = [], server = (), sent = []\<rparr>"

text \<open>A provider that answers every request with status 500 and the given body, and one
  that answers with a body that is no UTF-8 text. Neither body is JSON.\<close>

definition broken_platform :: "8 word list \<Rightarrow> unit platform" where
  "broken_platform bytes =
     \<lparr>urlopen = (\<lambda>s req. (HTTPErr 500 (Some bytes), s)),
      json_loads = (\<lambda>raw. Inl JSONDecodeError)\<rparr>"

definition garbled_platform :: "unit platform" where
  "garbled_platform =
     \<lparr>urlopen = (\<lambda>s req. (Resp 200 [0xFF], s)),
      json_loads = (\<lambda>raw. Inl JSONDecodeError)\<rparr>"

text \<open>
  A provider that answers every request with a hundred thousand opening brackets, a text on
  which \<^verbatim>\<open>json.loads\<close> raises \<^verbatim>\<open>RecursionError\<close>.
\<close>

definition nested_text :: string where
  "nested_text = replicate 100000 CHR ''[''"

definition nested_platform :: "unit platform" where
  "nested_platform =
     \<lparr>urlopen = (\<lambda>s req. (Resp 200 (map of_char nested_text), s)),
      json_loads = (\<lambda>raw. if raw = lit nested_text then Inl TooDeep else Inl JSONDecodeError)\<rparr>"





text \<open>
  An organization with three repositories. The provider deletes \<^verbatim>\<open>a\<close>, reports \<^verbatim>\<open>b\<close> as not
  found, and fails on every other name with status 500 and a body that is no JSON.
\<close>

definition acme_listing :: string where
  "acme_listing = ''[{\"name\":\"a\"},{\"name\":\"b\",\"private\":true},{\"name\":\"c\"}]''"

definition acme_repos :: "json list" where
  "acme_repos =
     [JDict [(lit ''name'', JStr (lit ''a''))],
      JDict [(lit ''name'', JStr (lit ''b'')), (lit ''private'', JBool True)],
      JDict [(lit ''name'', JStr (lit ''c''))]]"

definition acme_platform :: "unit platform" where
  "acme_platform =
     \<lparr>urlopen = (\<lambda>s req.
        case target req of
          OrgRepos org page pp \<Rightarrow>
            if page = 1 then (Resp 200 (map of_char acme_listing), s)
            else (Resp 200 (map of_char ''[]''), s)
        | RepoUrl org name \<Rightarrow>
            if name = JStr (lit ''a'') then (Resp 204 [], s)
            else if name = JStr (lit ''b'') then (HTTPErr 404 None, s)
            else (HTTPErr 500 (Some (map of_char ''boom'')), s)),
      json_loads = (\<lambda>raw.
        if raw = lit acme_listing then Inr (JList acme_repos)
        else if raw = lit ''[]'' then Inr (JList [])
        else Inl JSONDecodeError)\<rparr>"

definition acme_world :: "stdin_event list \<Rightarrow> unit world" where
  "acme_world inp =
     \<lparr>environ = [lit ''GITHUB_ORG_NAME'' \<mapsto> lit ''acme'', lit ''GITHUB_PAT'' \<mapsto> lit ''t''],
      env_file = None, stdin = inp, stdout = [], server = (), sent = []\<rparr>"

text \<open>
  An organization whose first page is full: a hundred repositories of one name. The provider
  answers page 1 with the text \<open>first\<close>, page 2 with the text \<open>second\<close> and every later page
  with the empty list, and it deletes every repository.
\<close>

definition century_text :: string where
  "century_text = ''['' @ concat (replicate 99 ''{\"name\":\"r\"},'') @ ''{\"name\":\"r\"}]''"

definition century_repos :: "json list" where
  "century_repos = replicate 100 (JDict [(lit ''name'', JStr (lit ''r''))])"

definition paged_platform :: "string \<Rightarrow> string \<Rightarrow> unit platform" where
  "paged_platform first second =
     \<lparr>urlopen = (\<lambda>s req.
        case target req of
          OrgRepos org page pp \<Rightarrow>
            (Resp 200 (map of_char (if page = 1 then first
                                    else if page = 2 then second else ''[]'')), s)
        | RepoUrl org name \<Rightarrow> (Resp 204 [], s)),
      json_loads = (\<lambda>raw.
        if raw = lit ''[]'' then Inr (JList [])
        else if raw = lit acme_listing then Inr (JList acme_repos)
        else if raw = lit century_text then Inr (JList century_repos)
        else Inl JSONDecodeError)\<rparr>"

text \<open>
  The world of the organization with three repositories once they are listed and displayed,
  before the operator is asked; \<open>inp\<close> is what the operator will type.
\<close>

definition acme_listed :: "stdin_event list \<Rightarrow> unit world" where
  "acme_listed inp =
     \<lparr>environ = [lit ''GITHUB_ORG_NAME'' \<mapsto> lit ''acme'', lit ''GITHUB_PAT'' \<mapsto> lit ''t''],
      env_file = None,
      stdin = inp,
      stdout = [EnvFileNotFound, TargetOrg (lit ''acme''), Fetching (lit ''acme''),
                FetchedPage 1 3 3, Found 3,
                RepoLine 1 (JStr (lit ''a'')) Public,
                RepoLine 2 (JStr (lit ''b'')) Private,
                RepoLine 3 (JStr (lit ''c'')) Public],
      server = (),
      sent = [GET_request (lit ''acme'') (lit ''t'') 1]\<rparr>"

section \<open>Properties\<close>

subsection \<open>The confirmation gate\<close>

lemma dropWhile_strip_pad:
  assumes "t \<noteq> []" "\<not> p (hd t)" "\<forall>c\<in>set a. p c"
  shows "dropWhile p (a @ t @ b) = t @ b"
proof -
  from assms(1,2) have "dropWhile p (t @ b) = t @ b"
    by (cases t) auto
  with assms(3) show ?thesis
    by (simp add: dropWhile_append3 dropWhile_append2)
qed

lemma strip_with_pad:
  assumes "t \<noteq> []" "\<not> p (hd t)" "\<not> p (last t)" "\<forall>c\<in>set a. p c" "\<forall>c\<in>set b. p c"
  shows "strip_with p (a @ t @ b) = t"
proof -
  have 1: "dropWhile p (a @ t @ b) = t @ b"
    using assms by (intro dropWhile_strip_pad) auto
  have 2: "dropWhile p (rev b @ rev t @ []) = rev t @ []"
    using assms by (intro dropWhile_strip_pad) (auto simp: hd_rev)
  show ?thesis
    using 1 2 by (simp add: strip_with_def)
qed

lemma strip_with_decompose:
  "\<exists>a b. s = a @ strip_with p s @ b \<and> (\<forall>c\<in>set a. p c) \<and> (\<forall>c\<in>set b. p c)"
proof -
  let ?u = "dropWhile p s"
  let ?a = "takeWhile p s"
  let ?b = "rev (takeWhile p (rev ?u))"
  have "rev (dropWhile p (rev ?u)) @ ?b = rev (takeWhile p (rev ?u) @ dropWhile p (rev ?u))"
    by (simp only: rev_append)
  also have "\<dots> = rev (rev ?u)"
    by (simp only: takeWhile_dropWhile_id)
  also have "\<dots> = ?u"
    by (simp only: rev_rev_ident)
  finally have u: "?u = strip_with p s @ ?b"
    by (simp add: strip_with_def)
  have "s = ?a @ ?u" by simp
  with u have "s = ?a @ strip_with p s @ ?b" by simp
  moreover have "\<forall>c\<in>set ?a. p c" by (auto dest: set_takeWhileD)
  moreover have "\<forall>c\<in>set ?b. p c" by (auto dest: set_takeWhileD)
  ultimately show ?thesis by blast
qed

lemma strip_with_eq_iff:
  assumes "t \<noteq> []" "\<not> p (hd t)" "\<not> p (last t)"
  shows "strip_with p s = t \<longleftrightarrow>
         (\<exists>a b. s = a @ t @ b \<and> (\<forall>c\<in>set a. p c) \<and> (\<forall>c\<in>set b. p c))"
proof
  assume "strip_with p s = t"
  with strip_with_decompose [of s p] show "\<exists>a b. s = a @ t @ b \<and> (\<forall>c\<in>set a. p c) \<and> (\<forall>c\<in>set b. p c)"
    by simp
next
  assume "\<exists>a b. s = a @ t @ b \<and> (\<forall>c\<in>set a. p c) \<and> (\<forall>c\<in>set b. p c)"
  then show "strip_with p s = t"
    using assms by (auto simp: strip_with_pad)
qed

lemma confirm_deletion_line:
  "stdin w = Line answer # rest \<Longrightarrow>
   fst (confirm_deletion n org w) = Inr (strip answer = lit ''DELETE ALL'')"
  by (simp add: confirm_deletion_def input_line_def println_def)

text \<open>
  Claim C5. \<^verbatim>\<open>confirm_deletion\<close> returns \<^verbatim>\<open>True\<close> when the operator's line, with the white space
  at both ends removed, is the phrase \<^verbatim>\<open>DELETE ALL\<close>, and \<^verbatim>\<open>False\<close> for every line whose trimmed
  form differs from the phrase.
\<close>

theorem confirm_deletion_trimmed:
  assumes "stdin w = Line answer # rest"
  shows "(strip answer = lit ''DELETE ALL'' \<longrightarrow> fst (confirm_deletion n org w) = Inr True)
       \<and> (strip answer \<noteq> lit ''DELETE ALL'' \<longrightarrow> fst (confirm_deletion n org w) = Inr False)"
  using confirm_deletion_line [OF assms] by simp

theorem confirm_deletion_trimmed_witness:
  "fst (confirm_deletion 2 (lit ''acme'') (quiet_world [Line (lit ''  DELETE ALL  '')])) = Inr True
   \<and> fst (confirm_deletion 2 (lit ''acme'') (quiet_world [Line (lit ''delete all'')])) = Inr False"
  using confirm_deletion_trimmed [of "quiet_world [Line (lit ''  DELETE ALL  '')]" "lit ''  DELETE ALL  ''" "[]" 2 "lit ''acme''"]
        confirm_deletion_trimmed [of "quiet_world [Line (lit ''delete all'')]" "lit ''delete all''" "[]" 2 "lit ''acme''"]
  by (simp add: quiet_world_def strip_def strip_with_def isspace_def)

text \<open>
  Claim C4, as the script has it. \<^verbatim>\<open>confirm_deletion\<close> returns \<^verbatim>\<open>True\<close> if and only if the
  operator's line is the phrase \<^verbatim>\<open>DELETE ALL\<close> with nothing but white space before and after
  it: the line is trimmed before it is compared. So \<^verbatim>\<open>delete all\<close> and the empty line are
  refused, and \<^verbatim>\<open>DELETE ALL\<close> followed by a space is accepted.
\<close>

theorem confirm_deletion_padded:
  assumes "stdin w = Line answer # rest"
  shows "fst (confirm_deletion n org w) =
         Inr (\<exists>a b. answer = a @ lit ''DELETE ALL'' @ b
                   \<and> (\<forall>c\<in>set a. isspace c) \<and> (\<forall>c\<in>set b. isspace c))"
proof -
  have "strip answer = lit ''DELETE ALL'' \<longleftrightarrow>
        (\<exists>a b. answer = a @ lit ''DELETE ALL'' @ b
               \<and> (\<forall>c\<in>set a. isspace c) \<and> (\<forall>c\<in>set b. isspace c))"
    unfolding strip_def by (rule strip_with_eq_iff) (simp_all add: isspace_def)
  with confirm_deletion_line [OF assms] show ?thesis by simp
qed

theorem confirm_deletion_padded_witness:
  "fst (confirm_deletion 2 (lit ''acme'') (quiet_world [Line (lit ''DELETE ALL '')])) = Inr True
   \<and> fst (confirm_deletion 2 (lit ''acme'') (quiet_world [Line (lit ''delete all'')])) = Inr False
   \<and> fst (confirm_deletion 2 (lit ''acme'') (quiet_world [Line []])) = Inr False"
proof -
  have 1: "\<exists>a b. lit ''DELETE ALL '' = a @ lit ''DELETE ALL'' @ b
                   \<and> (\<forall>c\<in>set a. isspace c) \<and> (\<forall>c\<in>set b. isspace c)"
    by (rule exI [of _ "[]"], rule exI [of _ "lit '' ''"]) (simp add: isspace_def)
  show ?thesis
    using 1 confirm_deletion_padded [of "quiet_world [Line (lit ''DELETE ALL '')]" "lit ''DELETE ALL ''" "[]" 2 "lit ''acme''"]
    by (simp add: quiet_world_def confirm_deletion_def input_line_def println_def
        strip_def strip_with_def isspace_def)
qed


text \<open>The line \<^verbatim>\<open>DELETE ALL\<close> with a space after it is not the phrase, and it is accepted.\<close>

theorem confirm_deletion_exact_counterexample:
  "lit ''DELETE ALL '' \<noteq> lit ''DELETE ALL''
   \<and> fst (confirm_deletion 2 (lit ''acme'') (quiet_world [Line (lit ''DELETE ALL '')])) = Inr True"
  by (simp add: confirm_deletion_def input_line_def println_def quiet_world_def
        strip_def strip_with_def isspace_def)

subsection \<open>The environment file\<close>

lemma load_lines_keeps: "env k = Some v \<Longrightarrow> snd (load_lines ls env) k = Some v"
proof (induction ls arbitrary: env)
  case Nil
  then show ?case by simp
next
  case (Cons l ls)
  have upd: "(env(key \<mapsto> val)) k = Some v" if "env key = None" for key val
    using that Cons.prems by auto
  show ?case
    using Cons.prems by (auto simp: Let_def intro!: Cons.IH upd)
qed

lemma load_env_from_file_environ:
  "environ (snd (load_env_from_file w)) =
     (case env_file w of None \<Rightarrow> environ w
      | Some content \<Rightarrow> snd (load_lines (splitlines content) (environ w)))"
  by (simp add: load_env_from_file_def println_def split: option.splits prod.splits)

text \<open>
  Claim C9. \<^verbatim>\<open>load_env_from_file\<close> leaves every variable that is set in the environment as it
  is, and a variable whose value it changes was not set before and comes from the file.
\<close>

theorem load_env_keeps_existing:
  "(\<forall>k v. environ w k = Some v \<longrightarrow> environ (snd (load_env_from_file w)) k = Some v)
   \<and> (\<forall>k. environ (snd (load_env_from_file w)) k \<noteq> environ w k
          \<longrightarrow> environ w k = None \<and> env_file w \<noteq> None)"
proof (intro conjI allI impI)
  fix k v assume "environ w k = Some v"
  then show "environ (snd (load_env_from_file w)) k = Some v"
    by (simp add: load_env_from_file_environ load_lines_keeps split: option.splits)
next
  fix k assume d: "environ (snd (load_env_from_file w)) k \<noteq> environ w k"
  show "environ w k = None"
  proof (cases "environ w k")
    case None
    then show ?thesis .
  next
    case (Some v)
    then have "environ (snd (load_env_from_file w)) k = Some v"
      by (simp add: load_env_from_file_environ load_lines_keeps split: option.splits)
    with d Some show ?thesis by simp
  qed
next
  fix k assume d: "environ (snd (load_env_from_file w)) k \<noteq> environ w k"
  then show "env_file w \<noteq> None"
    by (auto simp: load_env_from_file_environ split: option.splits)
qed

lemma env_world_loaded:
  "environ (snd (load_env_from_file env_world)) =
     [lit ''GITHUB_PAT'' \<mapsto> lit ''real'', lit ''GITHUB_ORG_NAME'' \<mapsto> lit ''acme'']"
  by (simp add: load_env_from_file_environ env_world_def splitlines_def is_linebreak_def
        strip_def strip_chars_def strip_with_def isspace_def startswith_def Let_def)

theorem load_env_keeps_existing_witness:
  "environ env_world (lit ''GITHUB_PAT'') = Some (lit ''real'')
   \<and> environ (snd (load_env_from_file env_world)) (lit ''GITHUB_PAT'') = Some (lit ''real'')
   \<and> environ env_world (lit ''GITHUB_ORG_NAME'') = None
   \<and> environ (snd (load_env_from_file env_world)) (lit ''GITHUB_ORG_NAME'') = Some (lit ''acme'')"
  using load_env_keeps_existing [of env_world]
  by (simp add: env_world_loaded) (simp add: env_world_def)

subsection \<open>The remote client\<close>

lemma utf8_decode_ascii:
  "\<forall>c\<in>set s. (of_char c :: nat) < 128 \<Longrightarrow> utf8_decode (map of_char s) = Some (lit s)"
proof (induction s)
  case Nil
  then show ?case by (simp add: utf8_decode.simps)
next
  case (Cons c s)
  then have small: "(of_char c :: nat) < 128" by simp
  have w: "(of_char c :: 8 word) = of_nat (of_char c)"
    by (simp only: of_nat_of_char)
  have u: "unat (of_char c :: 8 word) = of_char c"
    using small by (simp only: w unat_of_nat) simp
  have l: "(of_char c :: 8 word) < 0x80"
    using small by (simp add: word_less_nat_alt u)
  from Cons have "utf8_decode (map of_char s) = Some (lit s)" by simp
  with u l show ?case
    by (subst utf8_decode.simps) (simp add: utf8_first_def)
qed

lemma replicate_ascii:
  "(of_char c :: nat) < 128 \<Longrightarrow> \<forall>d\<in>set (replicate n c). (of_char d :: nat) < 128"
  by (induction n) simp_all

lemma nested_text_decoded:
  "utf8_decode (map of_char nested_text) = Some (lit nested_text)" "nested_text \<noteq> []"
proof -
  have "\<forall>d\<in>set nested_text. (of_char d :: nat) < 128"
    unfolding nested_text_def by (rule replicate_ascii) simp
  then show "utf8_decode (map of_char nested_text) = Some (lit nested_text)"
    by (rule utf8_decode_ascii)
  show "nested_text \<noteq> []"
    unfolding nested_text_def by (simp only: replicate_empty)
qed

lemma call_github_value:
  assumes "fst (urlopen P (server w) req) = res"
      and "status_of res = Some status"
      and "body_of res = Some bytes"
  shows "fst (call_github P req w) =
           (case utf8_decode bytes of
              None \<Rightarrow> Inl UnicodeDecodeError
            | Some raw \<Rightarrow>
                if raw = [] then Inr (status, JNull)
                else (case json_loads P raw of
                        Inr b \<Rightarrow> Inr (status, b)
                      | Inl JSONDecodeError \<Rightarrow> Inr (status, JDict [(lit ''raw'', JStr raw)])
                      | Inl TooDeep \<Rightarrow> Inl RecursionError
                      | Inl TooManyDigits \<Rightarrow> Inl ValueError))"
proof -
  obtain s' where u: "urlopen P (server w) req = (res, s')"
    using assms(1) by (cases "urlopen P (server w) req") simp
  show ?thesis
  proof (cases res)
    case (Resp st bs)
    with assms(2,3) u show ?thesis
      by (simp add: call_github_def parse_body_def
               split: option.splits sum.splits loads_error.splits)
  next
    case (HTTPErr code fp)
    with assms(2,3) u show ?thesis
      by (cases fp)
         (simp_all add: call_github_def parse_body_def utf8_decode.simps [of "[]"]
               split: option.splits sum.splits loads_error.splits)
  next
    case NetFail
    with assms show ?thesis by simp
  next
    case NetInterrupt
    with assms show ?thesis by simp
  qed
qed

lemma call_github_returns_iff:
  assumes "fst (urlopen P (server w) req) = res"
      and "status_of res = Some status"
      and "body_of res = Some bytes"
  shows "(\<exists>body. fst (call_github P req w) = Inr (status, body)) \<longleftrightarrow> readable P res"
proof (cases "utf8_decode bytes")
  case None
  with call_github_value [OF assms] assms(3) show ?thesis
    by (simp add: readable_def)
next
  case (Some raw)
  show ?thesis
  proof (cases "raw = []")
    case True
    with Some call_github_value [OF assms] assms(3) show ?thesis
      by (simp add: readable_def)
  next
    case False
    show ?thesis
    proof (cases "json_loads P raw")
      case (Inl e)
      with False Some call_github_value [OF assms] assms(3) show ?thesis
        by (cases e) (simp_all add: readable_def)
    next
      case (Inr b)
      with False Some call_github_value [OF assms] assms(3) show ?thesis
        by (simp add: readable_def)
    qed
  qed
qed

text \<open>
  Claim C10, as the script has it. For every answer that has a status, a response or an
  \<^verbatim>\<open>HTTPError\<close>, with or without a body, what \<^verbatim>\<open>call_github\<close> does depends on the body alone. It
  raises \<^verbatim>\<open>UnicodeDecodeError\<close> when the body is no UTF-8 text. Otherwise it returns the status
  with \<^verbatim>\<open>None\<close> when the text is empty, with the decoded JSON value when \<^verbatim>\<open>json.loads\<close> returns
  one, and with the raw text under the key \<^verbatim>\<open>raw\<close> when \<^verbatim>\<open>json.loads\<close> raises
  \<^verbatim>\<open>JSONDecodeError\<close>, which therefore never reaches the caller; the other two exceptions of
  \<^verbatim>\<open>json.loads\<close> it does not catch. So it returns the status and a body exactly for the readable
  answers.
\<close>

theorem call_github_on_response:
  assumes "fst (urlopen P (server w) req) = res"
      and "status_of res = Some status"
      and "body_of res = Some bytes"
  shows "fst (call_github P req w) =
           (case utf8_decode bytes of
              None \<Rightarrow> Inl UnicodeDecodeError
            | Some raw \<Rightarrow>
                if raw = [] then Inr (status, JNull)
                else (case json_loads P raw of
                        Inr b \<Rightarrow> Inr (status, b)
                      | Inl JSONDecodeError \<Rightarrow> Inr (status, JDict [(lit ''raw'', JStr raw)])
                      | Inl TooDeep \<Rightarrow> Inl RecursionError
                      | Inl TooManyDigits \<Rightarrow> Inl ValueError))
         \<and> ((\<exists>body. fst (call_github P req w) = Inr (status, body)) \<longleftrightarrow> readable P res)"
  using call_github_value [OF assms] call_github_returns_iff [OF assms] by (rule conjI)

theorem call_github_on_response_witness:
  "fst (call_github (broken_platform [0x6F, 0x6F, 0x70, 0x73])
          (build_request (lit ''DELETE'') (RepoUrl (lit ''acme'') (JStr (lit ''app''))) (lit ''t''))
          (quiet_world [])) =
   Inr (500, JDict [(lit ''raw'', JStr (lit ''oops''))])
   \<and> fst (call_github nested_platform
            (build_request (lit ''GET'') (OrgRepos (lit ''acme'') 1 per_page) (lit ''t''))
            (quiet_world [])) = Inl RecursionError"
proof -
  let ?P = "broken_platform [0x6F, 0x6F, 0x70, 0x73]"
  let ?del = "build_request (lit ''DELETE'') (RepoUrl (lit ''acme'') (JStr (lit ''app''))) (lit ''t'')"
  let ?get = "build_request (lit ''GET'') (OrgRepos (lit ''acme'') 1 per_page) (lit ''t'')"
  have d: "utf8_decode [0x6F, 0x6F, 0x70, 0x73] = Some (lit ''oops'')"
    by (simp add: utf8_decode.simps utf8_first_def)
  have r: "fst (urlopen ?P (server (quiet_world [])) ?del) = HTTPErr 500 (Some [0x6F, 0x6F, 0x70, 0x73])"
    by (simp add: broken_platform_def)
  have a: "fst (call_github ?P ?del (quiet_world [])) =
             Inr (500, JDict [(lit ''raw'', JStr (lit ''oops''))])"
    using call_github_on_response [OF r, of 500 "[0x6F, 0x6F, 0x70, 0x73]"]
    by (simp add: d broken_platform_def)
  have r': "fst (urlopen nested_platform (server (quiet_world [])) ?get)
              = Resp 200 (map of_char nested_text)"
    by (simp add: nested_platform_def)
  have j': "json_loads nested_platform (lit nested_text) = Inl TooDeep"
    by (simp add: nested_platform_def)
  have b: "fst (call_github nested_platform ?get (quiet_world [])) = Inl RecursionError"
    using call_github_on_response [OF r', of 200 "map of_char nested_text"]
    by (simp add: nested_text_decoded j')
  from a b show ?thesis ..
qed

text \<open>A response whose body is the single byte \<^verbatim>\<open>0xFF\<close> makes \<^verbatim>\<open>call_github\<close> raise.\<close>

theorem call_github_total_counterexample:
  "fst (call_github garbled_platform
          (build_request (lit ''GET'') (OrgRepos (lit ''acme'') 1 per_page) (lit ''t''))
          (quiet_world [])) = Inl UnicodeDecodeError"
  by (simp add: call_github_def garbled_platform_def utf8_decode.simps utf8_first_def)

subsection \<open>The deletion loop\<close>

lemma delete_results_append [simp]:
  "delete_results (xs @ ys) = delete_results xs @ delete_results ys"
  by (induction xs rule: delete_results.induct) simp_all

lemma call_github_stdout: "stdout (snd (call_github P req w)) = stdout w"
  by (simp add: call_github_def Let_def
        split: prod.splits http_result.splits option.splits sum.splits)

lemma call_github_sent: "sent (snd (call_github P req w)) = sent w @ [req]"
  by (simp add: call_github_def Let_def
        split: prod.splits http_result.splits option.splits sum.splits)

lemma call_github_stdin: "stdin (snd (call_github P req w)) = stdin w"
  by (simp add: call_github_def Let_def
        split: prod.splits http_result.splits option.splits sum.splits)






lemma delete_repo_Inr:
  assumes "delete_repo P org tok name w = (Inr (ok, m), w1)"
  shows "stdout w1 = stdout w \<and> ok = (\<not> is_failure m)
         \<and> sent w1 = sent w @ [DELETE_request org tok name]"
proof -
  obtain r w2 where c: "call_github P (DELETE_request org tok name) w = (r, w2)"
    by (cases "call_github P (DELETE_request org tok name) w")
  from c have "stdout w2 = stdout w" "sent w2 = sent w @ [DELETE_request org tok name]"
    using call_github_stdout [of P "DELETE_request org tok name" w]
          call_github_sent [of P "DELETE_request org tok name" w] by simp_all
  with assms c show ?thesis
    by (auto simp: delete_repo_def DELETE_request_def split: sum.splits if_splits)
qed

lemma delete_loop_outcomes:
  assumes "delete_loop P org tok n i repos (s0, f0) w = (Inr (s, f), w')"
  shows "\<exists>new. stdout w' = stdout w @ new
           \<and> length (delete_results new) = length repos
           \<and> s = s0 + length (filter (\<lambda>m. \<not> is_failure m) (delete_results new))
           \<and> f = f0 + length (filter is_failure (delete_results new))"
  using assms
proof (induction repos arbitrary: i s0 f0 w)
  case Nil
  then show ?case by simp
next
  case (Cons repo rest)
  from Cons.prems obtain name where name: "dict_get repo (lit ''name'') (JStr (lit ''unknown'')) = Inr name"
    by (auto split: sum.splits)
  let ?w0 = "println (Deleting i n name) w"
  from Cons.prems name obtain ok m w1 where d: "delete_repo P org tok name ?w0 = (Inr (ok, m), w1)"
    by (auto split: sum.splits prod.splits)
  from delete_repo_Inr [OF d] have out: "stdout w1 = stdout w @ [Deleting i n name]"
    and ok: "ok = (\<not> is_failure m)"
    by (simp_all add: println_def)
  let ?w2 = "println (DeleteResult m) w1"
  have out2: "stdout ?w2 = stdout w @ [Deleting i n name, DeleteResult m]"
    using out by (simp add: println_def)
  show ?case
  proof (cases ok)
    case True
    with Cons.prems name d
    have "delete_loop P org tok n (i + 1) rest (s0 + 1, f0) ?w2 = (Inr (s, f), w')"
      by simp
    from Cons.IH [OF this] obtain new where
      "stdout w' = stdout ?w2 @ new" "length (delete_results new) = length rest"
      "s = s0 + 1 + length (filter (\<lambda>m. \<not> is_failure m) (delete_results new))"
      "f = f0 + length (filter is_failure (delete_results new))"
      by blast
    with out2 True ok show ?thesis
      by (intro exI [of _ "[Deleting i n name, DeleteResult m] @ new"]) simp
  next
    case False
    with Cons.prems name d
    have "delete_loop P org tok n (i + 1) rest (s0, f0 + 1) ?w2 = (Inr (s, f), w')"
      by simp
    from Cons.IH [OF this] obtain new where
      "stdout w' = stdout ?w2 @ new" "length (delete_results new) = length rest"
      "s = s0 + length (filter (\<lambda>m. \<not> is_failure m) (delete_results new))"
      "f = f0 + 1 + length (filter is_failure (delete_results new))"
      by blast
    with out2 False ok show ?thesis
      by (intro exI [of _ "[Deleting i n name, DeleteResult m] @ new"]) simp
  qed
qed





lemmas acme_defs =
  acme_platform_def acme_repos_def acme_world_def acme_listing_def
  delete_repo_def call_github_def parse_body_def build_request_def println_def
  utf8_decode.simps utf8_first_def

lemma acme_delete_run:
  "fst (delete_loop acme_platform (lit ''acme'') (lit ''t'') 3 1 acme_repos (0, 0) w) = Inr (2, 1)"
  by (simp add: acme_defs)

lemma successes_deleted_or_absent:
  "length (filter (\<lambda>m. \<not> is_failure m) ms)
     = length (filter is_deleted ms) + length (filter is_absent ms)"
proof (induction ms)
  case Nil
  then show ?case by simp
next
  case (Cons m ms)
  then show ?case by (cases m) simp_all
qed

text \<open>
  Claim C8. When the deletion loop has run through the batch, every repository has produced
  exactly one printed outcome, and each outcome has incremented exactly one of the two
  counters: \<^verbatim>\<open>success_count\<close> is the number of repositories deleted plus the number already
  absent, \<^verbatim>\<open>fail_count\<close> is the number of failures, and the three numbers add up to the length
  of the batch.
\<close>

theorem delete_loop_one_outcome_each:
  assumes "delete_loop P org tok n i repos (0, 0) w = (Inr (success_count, fail_count), w')"
  shows "\<exists>new. stdout w' = stdout w @ new
           \<and> length (delete_results new) = length repos
           \<and> success_count = length (filter is_deleted (delete_results new))
                               + length (filter is_absent (delete_results new))
           \<and> fail_count = length (filter is_failure (delete_results new))
           \<and> length repos = length (filter is_deleted (delete_results new))
                               + length (filter is_absent (delete_results new))
                               + length (filter is_failure (delete_results new))
           \<and> length repos = success_count + fail_count"
proof -
  from delete_loop_outcomes [OF assms] obtain new where new:
    "stdout w' = stdout w @ new" "length (delete_results new) = length repos"
    "success_count = length (filter (\<lambda>m. \<not> is_failure m) (delete_results new))"
    "fail_count = length (filter is_failure (delete_results new))"
    by auto
  have "length (filter (\<lambda>m. \<not> is_failure m) (delete_results new))
          + length (filter is_failure (delete_results new)) = length (delete_results new)"
    using sum_length_filter_compl [of is_failure "delete_results new"] by simp
  with new successes_deleted_or_absent [of "delete_results new"] show ?thesis
    by (intro exI [of _ new]) simp
qed

theorem delete_loop_one_outcome_each_witness:
  "fst (delete_loop acme_platform (lit ''acme'') (lit ''t'') 3 1 acme_repos (0, 0) (acme_world []))
     = Inr (2, 1)
   \<and> (2::nat) + 1 = length acme_repos"
proof -
  let ?run = "delete_loop acme_platform (lit ''acme'') (lit ''t'') 3 1 acme_repos (0, 0) (acme_world [])"
  have run: "?run = (Inr (2, 1), snd ?run)"
    using acme_delete_run by (simp add: prod_eq_iff)
  from delete_loop_one_outcome_each [OF run] acme_delete_run show ?thesis
    by auto
qed





subsection \<open>The paginated lister\<close>

lemma list_loop_step_short:
  assumes "fst (call_github P (GET_request org tok page) w) = Inr (200, JList final)"
    and "length final < per_page"
  shows "\<exists>w'. list_loop P org tok page acc w =
           Some (if final = [] then Inl (SystemExit (ExitMsg (UnexpectedFormat (JList []))))
                 else Inr (acc @ final), w')
         \<and> sent w' = sent w @ [GET_request org tok page]
         \<and> stdin w' = stdin w"
proof -
  obtain w1 where c: "call_github P (GET_request org tok page) w = (Inr (200, JList final), w1)"
    using assms(1) by (cases "call_github P (GET_request org tok page) w") simp
  then have w1: "sent w1 = sent w @ [GET_request org tok page]" "stdin w1 = stdin w"
    using call_github_sent [of P "GET_request org tok page" w]
          call_github_stdin [of P "GET_request org tok page" w] by simp_all
  show ?thesis
    using c w1 assms(2)
    by (subst list_loop.simps) (auto simp: GET_request_def println_def)
qed

lemma list_loop_step_full:
  assumes "fst (call_github P (GET_request org tok page) w) = Inr (200, JList full)"
    and "length full = per_page"
  shows "\<exists>w1. list_loop P org tok page acc w = list_loop P org tok (page + 1) (acc @ full) w1
         \<and> sent w1 = sent w @ [GET_request org tok page]
         \<and> stdin w1 = stdin w"
proof -
  obtain w1 where c: "call_github P (GET_request org tok page) w = (Inr (200, JList full), w1)"
    using assms(1) by (cases "call_github P (GET_request org tok page) w") simp
  then have w1: "sent w1 = sent w @ [GET_request org tok page]" "stdin w1 = stdin w"
    using call_github_sent [of P "GET_request org tok page" w]
          call_github_stdin [of P "GET_request org tok page" w] by simp_all
  have ne: "full \<noteq> []" using assms(2) by (auto simp: per_page_def)
  show ?thesis
    using c w1 assms(2) ne
    by (subst list_loop.simps) (auto simp: GET_request_def println_def)
qed

lemma list_loop_only_GET:
  assumes run: "list_loop P org tok page repos w = Some y"
  shows "stdin (snd y) = stdin w
         \<and> (\<exists>new. sent (snd y) = sent w @ new \<and> (\<forall>q\<in>set new. verb q = lit ''GET''))"
proof -
  let ?Q = "\<lambda>x y. stdin (snd y) = stdin (snd x)
         \<and> (\<exists>new. sent (snd y) = sent (snd x) @ new \<and> (\<forall>q\<in>set new. verb q = lit ''GET''))"
  have "?Q (((((P, org), tok), page), repos), w) y"
  proof (rule list_loop.raw_induct [where Pa = ?Q, OF _ run], goal_cases)
    case (1 f P' org' tok' page' repos' v z)
    let ?req = "build_request (lit ''GET'') (OrgRepos org' page' per_page) tok'"
    obtain r1 w1 where c: "call_github P' ?req v = (r1, w1)"
      by (cases "call_github P' ?req v")
    then have w1: "sent w1 = sent v @ [?req]" "stdin w1 = stdin v"
      using call_github_sent [of P' ?req v] call_github_stdin [of P' ?req v] by simp_all
    have verb: "verb ?req = lit ''GET''"
      by (simp add: build_request_def)
    let ?w2 = "println (FetchedPage page' (length (items (snd (projr r1))))
                   (length (repos' @ items (snd (projr r1))))) w1"
    have w2: "sent ?w2 = sent v @ [?req]" "stdin ?w2 = stdin v"
      using w1 by (simp_all add: println_def)
    show ?case
    proof (cases "snd z = w1 \<or> snd z = ?w2")
      case True
      then have "stdin (snd z) = stdin v" "sent (snd z) = sent v @ [?req]"
        using w1 w2 by auto
      with verb show ?thesis
        by (intro conjI exI [of _ "[?req]"]) simp_all
    next
      case False
      with 1(2) c have rec: "f P' org' tok' (page' + 1) (repos' @ items (snd (projr r1))) ?w2 = Some z"
        by (auto simp: Let_def split: sum.splits if_splits)
      from 1(1) [OF rec] obtain new where
        "stdin (snd z) = stdin ?w2" "sent (snd z) = sent ?w2 @ new"
        "\<forall>q\<in>set new. verb q = lit ''GET''"
        by auto
      with w2 verb show ?thesis
        by (intro conjI exI [of _ "?req # new"]) simp_all
    qed
  qed
  then show ?thesis by simp
qed

lemma list_loop_pages:
  assumes "\<forall>p\<in>set fulls. length p = per_page" "length final < per_page"
    and "\<forall>j<length fulls. \<forall>w.
           fst (call_github P (GET_request org tok (page + j)) w) = Inr (200, JList (fulls ! j))"
    and "\<forall>w. fst (call_github P (GET_request org tok (page + length fulls)) w)
              = Inr (200, JList final)"
  shows "\<exists>w'. list_loop P org tok page acc w =
           Some (if final = [] then Inl (SystemExit (ExitMsg (UnexpectedFormat (JList []))))
                 else Inr (acc @ concat fulls @ final), w')
         \<and> sent w' = sent w @ map (\<lambda>j. GET_request org tok (page + j)) [0..<length fulls + 1]
         \<and> stdin w' = stdin w"
  using assms
proof (induction fulls arbitrary: page acc w)
  case Nil
  from Nil.prems(4) have "fst (call_github P (GET_request org tok page) w) = Inr (200, JList final)"
    by simp
  from list_loop_step_short [OF this Nil.prems(2), of acc] show ?case
    by (cases "final = []") simp_all
next
  case (Cons full fulls)
  from Cons.prems(3) have "fst (call_github P (GET_request org tok page) w) = Inr (200, JList full)"
    by force
  moreover from Cons.prems(1) have "length full = per_page"
    by simp
  ultimately obtain w1 where step:
    "list_loop P org tok page acc w = list_loop P org tok (page + 1) (acc @ full) w1"
    "sent w1 = sent w @ [GET_request org tok page]" "stdin w1 = stdin w"
    using list_loop_step_full [of P org tok page w full acc] by blast
  have rest: "\<forall>j<length fulls. \<forall>w.
           fst (call_github P (GET_request org tok (page + 1 + j)) w) = Inr (200, JList (fulls ! j))"
  proof (intro allI impI)
    fix j w assume "j < length fulls"
    then have "Suc j < length (full # fulls)" by simp
    from Cons.prems(3) [rule_format, OF this, of w]
    show "fst (call_github P (GET_request org tok (page + 1 + j)) w) = Inr (200, JList (fulls ! j))"
      by simp
  qed
  have last: "\<forall>w. fst (call_github P (GET_request org tok (page + 1 + length fulls)) w)
              = Inr (200, JList final)"
    using Cons.prems(4) by simp
  have full': "\<forall>p\<in>set fulls. length p = per_page"
    using Cons.prems(1) by simp
  from Cons.IH [OF full' Cons.prems(2) rest last, of "acc @ full" w1] obtain w' where
    "list_loop P org tok (page + 1) (acc @ full) w1 =
           Some (if final = [] then Inl (SystemExit (ExitMsg (UnexpectedFormat (JList []))))
                 else Inr ((acc @ full) @ concat fulls @ final), w')"
    "sent w' = sent w1 @ map (\<lambda>j. GET_request org tok (page + 1 + j)) [0..<length fulls + 1]"
    "stdin w' = stdin w1"
    by blast
  with step show ?case
    by (intro exI [of _ w']) (simp add: map_upt_Suc del: upt_Suc)
qed

lemma length_concat_full:
  "\<forall>p\<in>set fulls. length p = n \<Longrightarrow> length (concat fulls) = n * length fulls"
  by (induction fulls) simp_all

lemma century_text_ascii: "\<forall>c\<in>set century_text. (of_char c :: nat) < 128"
  by (simp add: century_text_def)

lemma century_text_length: "length century_text = 1301"
  by (simp add: century_text_def length_concat sum_list_replicate)

lemma century_served:
  "fst (call_github (paged_platform century_text second) (GET_request org tok 1) w)
     = Inr (200, JList century_repos)"
proof -
  have a: "lit century_text \<noteq> lit ''[]''" "lit century_text \<noteq> lit acme_listing"
       "lit century_text \<noteq> []"
    using century_text_length
    by (auto simp: acme_listing_def dest!: arg_cong [where f = length])
  show ?thesis
    using a by (simp add: call_github_def paged_platform_def GET_request_def build_request_def
          utf8_decode_ascii [OF century_text_ascii] parse_body_def)
qed

lemma empty_served:
  "fst (call_github (paged_platform first ''[]'') (GET_request org tok 2) w) = Inr (200, JList [])"
  by (simp add: call_github_def paged_platform_def GET_request_def build_request_def
        utf8_decode.simps utf8_first_def parse_body_def)

lemma acme_served:
  "fst (call_github (paged_platform first acme_listing) (GET_request org tok 2) w)
     = Inr (200, JList acme_repos)"
proof -
  have "\<forall>c\<in>set acme_listing. (of_char c :: nat) < 128"
    by (simp add: acme_listing_def)
  from utf8_decode_ascii [OF this] show ?thesis
    by (simp add: call_github_def paged_platform_def GET_request_def build_request_def
          parse_body_def) (simp add: acme_listing_def)
qed

lemma total_full_pages:
  assumes "\<forall>p\<in>set fulls. length p = per_page" "length final < per_page"
  shows "(if length (concat fulls @ final) mod per_page = 0
          then length (concat fulls @ final) div per_page + 1
          else (length (concat fulls @ final) + per_page - 1) div per_page)
         = length fulls + 1"
proof -
  have t: "length (concat fulls @ final) = 100 * length fulls + length final"
    using length_concat_full [OF assms(1)] by (simp add: per_page_def)
  have f: "length final < 100"
    using assms(2) by (simp add: per_page_def)
  have exact: "(100 * k + 0) mod 100 = 0" "(100 * k + 0) div 100 + 1 = k + 1" for k :: nat
    by simp_all
  have short: "(100 * k + n) mod 100 \<noteq> 0" "(100 * k + n + 100 - 1) div 100 = k + 1"
    if "0 < n" "n < 100" for k n :: nat
    using that by simp_all
  show ?thesis
  proof (cases "length final = 0")
    case True
    with t exact [of "length fulls"] show ?thesis
      by (simp add: per_page_def)
  next
    case False
    with f short [of "length final" "length fulls"] t show ?thesis
      by (simp add: per_page_def)
  qed
qed

text \<open>
  Claim C3, as the script has it. Against a provider that serves full pages of 100 items and
  then one final page of fewer than 100 items, possibly none, \<^verbatim>\<open>list_all_repos\<close> returns, and it
  requests the pages 1, 2, ... in order: as many as the rounded-up quotient of the total by
  100 when the total is not a multiple of 100, and one more than that quotient when it is,
  the last request being answered with the empty page. When the final page is not empty, the
  result is the concatenation of all pages in the order of the requests.
\<close>

theorem list_all_repos_pages:
  assumes "\<forall>p\<in>set fulls. length p = per_page" and "length final < per_page"
    and "\<forall>j<length fulls. \<forall>w.
           fst (call_github P (GET_request org tok (j + 1)) w) = Inr (200, JList (fulls ! j))"
    and "\<forall>w. fst (call_github P (GET_request org tok (length fulls + 1)) w)
              = Inr (200, JList final)"
  shows "\<exists>r w'. list_all_repos P org tok w = Some (r, w')
           \<and> sent w' = sent w @ map (\<lambda>j. GET_request org tok (j + 1))
                 [0..<(if length (concat fulls @ final) mod per_page = 0
                       then length (concat fulls @ final) div per_page + 1
                       else (length (concat fulls @ final) + per_page - 1) div per_page)]
           \<and> (final \<noteq> [] \<longrightarrow> r = Inr (concat fulls @ final))"
proof -
  have 3: "\<forall>j<length fulls. \<forall>w.
           fst (call_github P (GET_request org tok (1 + j)) w) = Inr (200, JList (fulls ! j))"
    using assms(3) by simp
  have 4: "\<forall>w. fst (call_github P (GET_request org tok (1 + length fulls)) w)
              = Inr (200, JList final)"
    using assms(4) by simp
  from list_loop_pages [OF assms(1,2) 3 4, of "[]" "println (Fetching org) w"]
  obtain w' where
    "list_loop P org tok 1 [] (println (Fetching org) w) =
           Some (if final = [] then Inl (SystemExit (ExitMsg (UnexpectedFormat (JList []))))
                 else Inr ([] @ concat fulls @ final), w')"
    "sent w' = sent (println (Fetching org) w)
                 @ map (\<lambda>j. GET_request org tok (1 + j)) [0..<length fulls + 1]"
    by blast
  then show ?thesis
    unfolding total_full_pages [OF assms(1,2)]
    by (auto simp: list_all_repos_def println_def)
qed

theorem list_all_repos_pages_witness:
  "map_option fst (list_all_repos (paged_platform century_text acme_listing) (lit ''acme'') (lit ''t'')
                     (acme_world []))
     = Some (Inr (century_repos @ acme_repos))
   \<and> map_option (sent \<circ> snd) (list_all_repos (paged_platform century_text acme_listing)
                                  (lit ''acme'') (lit ''t'') (acme_world []))
     = Some [GET_request (lit ''acme'') (lit ''t'') 1, GET_request (lit ''acme'') (lit ''t'') 2]"
proof -
  let ?P = "paged_platform century_text acme_listing"
  have full: "\<forall>p\<in>set [century_repos]. length p = per_page"
    by (simp add: century_repos_def per_page_def)
  have short: "length acme_repos < per_page"
    by (simp add: acme_repos_def per_page_def)
  have first: "\<forall>j<length [century_repos]. \<forall>w.
           fst (call_github ?P (GET_request (lit ''acme'') (lit ''t'') (j + 1)) w)
             = Inr (200, JList ([century_repos] ! j))"
    using century_served [of acme_listing "lit ''acme''" "lit ''t''"] by simp
  have two: "length [century_repos] + 1 = 2"
    by simp
  have second: "\<forall>w. fst (call_github ?P
                  (GET_request (lit ''acme'') (lit ''t'') (length [century_repos] + 1)) w)
              = Inr (200, JList acme_repos)"
    unfolding two using acme_served [of century_text "lit ''acme''" "lit ''t''"] by blast
  have n: "length (concat [century_repos] @ acme_repos) = 103"
    by (simp add: century_repos_def acme_repos_def)
  have ne: "acme_repos \<noteq> []"
    by (simp add: acme_repos_def)
  from list_all_repos_pages [OF full short first second, of "acme_world []"] ne
  show ?thesis
    unfolding n by (auto simp: per_page_def acme_world_def numeral_2_eq_2)
qed

text \<open>
  A hundred repositories, a multiple of 100 whose rounded-up quotient by 100 is 1: the script
  sends two requests and does not return the hundred repositories.
\<close>

theorem list_all_repos_pages_counterexample:
  "length century_repos mod per_page = 0
   \<and> (length century_repos + per_page - 1) div per_page = 1
   \<and> map_option fst (list_all_repos (paged_platform century_text ''[]'') (lit ''acme'') (lit ''t'')
                       (acme_world []))
     = Some (Inl (SystemExit (ExitMsg (UnexpectedFormat (JList [])))))
   \<and> map_option (sent \<circ> snd) (list_all_repos (paged_platform century_text ''[]'')
                                  (lit ''acme'') (lit ''t'') (acme_world []))
     = Some [GET_request (lit ''acme'') (lit ''t'') 1, GET_request (lit ''acme'') (lit ''t'') 2]"
proof -
  let ?P = "paged_platform century_text ''[]''"
  have full: "\<forall>p\<in>set [century_repos]. length p = per_page"
    by (simp add: century_repos_def per_page_def)
  have short: "length ([] :: json list) < per_page"
    by (simp add: per_page_def)
  have first: "\<forall>j<length [century_repos]. \<forall>w.
           fst (call_github ?P (GET_request (lit ''acme'') (lit ''t'') (1 + j)) w)
             = Inr (200, JList ([century_repos] ! j))"
    using century_served [of "''[]''" "lit ''acme''" "lit ''t''"] by simp
  have two: "1 + length [century_repos] = 2"
    by simp
  have second: "\<forall>w. fst (call_github ?P
                  (GET_request (lit ''acme'') (lit ''t'') (1 + length [century_repos])) w)
              = Inr (200, JList [])"
    unfolding two using empty_served [of century_text "lit ''acme''" "lit ''t''"] by blast
  from list_loop_pages [OF full short first second, of "[]" "println (Fetching (lit ''acme'')) (acme_world [])"]
  show ?thesis
    by (auto simp: list_all_repos_def println_def acme_world_def century_repos_def per_page_def
          numeral_2_eq_2)
qed

text \<open>
  Claim C2, as the script runs. When the first page arrives with status 200 and the empty
  list, \<^verbatim>\<open>list_all_repos\<close> sends no further request, and it raises \<^verbatim>\<open>SystemExit\<close> with the message
  of an unexpected response format where the claim has it return the empty batch: the test
  \<^verbatim>\<open>not body\<close> holds of the empty list, so the branch for a page of length 0 is never reached.
  The script then ends with exit status 1 and without the line that says there is nothing
  to delete.
\<close>

theorem empty_first_page_rejected:
  assumes "fst (call_github P (GET_request org tok 1) (println (Fetching org) w))
             = Inr (200, JList [])"
  shows "\<exists>w'. list_all_repos P org tok w
                = Some (Inl (SystemExit (ExitMsg (UnexpectedFormat (JList [])))), w')
             \<and> sent w' = sent w @ [GET_request org tok 1]"
proof -
  have "length ([] :: json list) < per_page"
    by (simp add: per_page_def)
  from list_loop_step_short [OF assms this, of "[]"] show ?thesis
    by (auto simp: list_all_repos_def println_def)
qed

theorem empty_first_page_rejected_witness:
  "map_option fst (script (paged_platform ''[]'' ''[]'') (acme_world [])) = Some 1
   \<and> map_option (sent \<circ> snd) (script (paged_platform ''[]'' ''[]'') (acme_world []))
     = Some [GET_request (lit ''acme'') (lit ''t'') 1]"
proof -
  let ?w = "println (TargetOrg (lit ''acme'')) (println EnvFileNotFound (acme_world []))"
  have served: "fst (call_github (paged_platform ''[]'' ''[]'') (GET_request (lit ''acme'') (lit ''t'') 1)
                  (println (Fetching (lit ''acme'')) ?w)) = Inr (200, JList [])"
    by (simp add: call_github_def paged_platform_def GET_request_def build_request_def
          utf8_decode.simps utf8_first_def parse_body_def)
  from empty_first_page_rejected [OF served] obtain w' where
    l: "list_all_repos (paged_platform ''[]'' ''[]'') (lit ''acme'') (lit ''t'') ?w
          = Some (Inl (SystemExit (ExitMsg (UnexpectedFormat (JList [])))), w')"
    and s: "sent w' = sent ?w @ [GET_request (lit ''acme'') (lit ''t'') 1]"
    by blast
  have m: "main (paged_platform ''[]'' ''[]'') (acme_world [])
             = Some (Inl (SystemExit (ExitMsg (UnexpectedFormat (JList [])))), w')"
    using l by (simp add: main_def load_env_from_file_def get_env_var_def acme_world_def println_def)
  show ?thesis
    using m s by (simp add: script_def println_def acme_world_def)
qed

subsection \<open>The orchestrator\<close>

lemma load_env_from_file_sent: "sent (snd (load_env_from_file w)) = sent w"
  by (simp add: load_env_from_file_def println_def split: option.splits prod.splits)

lemma display_repos_sent: "sent (snd (display_repos i repos w)) = sent w"
  by (induction i repos w rule: display_repos.induct)
     (simp_all add: println_def split: sum.splits)

lemma confirm_deletion_sent: "sent (snd (confirm_deletion n org w)) = sent w"
  by (simp add: confirm_deletion_def input_line_def println_def Let_def
        split: list.splits stdin_event.splits)

lemma list_all_repos_only_GET:
  assumes "list_all_repos P org tok w = Some (r, w')"
  shows "\<exists>new. sent w' = sent w @ new \<and> (\<forall>q\<in>set new. verb q = lit ''GET'')"
  using list_loop_only_GET [of P org tok 1 "[]" "println (Fetching org) w" "(r, w')"] assms
  by (simp add: list_all_repos_def println_def)

lemma parse_body_raises:
  "parse_body P raw = Inl e \<Longrightarrow> e = RecursionError \<or> e = ValueError"
  by (auto simp: parse_body_def split: if_splits sum.splits loads_error.splits)

lemma call_github_raises:
  "call_github P req w = (Inl e, w') \<Longrightarrow>
   e = UnicodeDecodeError \<or> e = URLError \<or> e = KeyboardInterrupt
   \<or> e = RecursionError \<or> e = ValueError"
  by (auto simp: call_github_def Let_def
        split: prod.splits http_result.splits option.splits sum.splits
        dest: parse_body_raises)

lemma delete_repo_raises:
  "delete_repo P org tok name w = (Inl e, w') \<Longrightarrow>
   e = UnicodeDecodeError \<or> e = URLError \<or> e = KeyboardInterrupt
   \<or> e = RecursionError \<or> e = ValueError"
  by (auto simp: delete_repo_def split: prod.splits sum.splits if_splits dest: call_github_raises)

lemma delete_loop_raises:
  "delete_loop P org tok n i repos (s, f) w = (Inl e, w') \<Longrightarrow>
   e = AttributeError \<or> e = UnicodeDecodeError \<or> e = URLError \<or> e = KeyboardInterrupt
   \<or> e = RecursionError \<or> e = ValueError"
proof (induction repos arbitrary: i s f w)
  case Nil
  then show ?case by simp
next
  case (Cons repo repos)
  show ?case
  proof (cases "dict_get repo (lit ''name'') (JStr (lit ''unknown''))")
    case (Inl a)
    with Cons.prems show ?thesis
      by (cases repo) (auto split: option.splits)
  next
    case (Inr name)
    obtain r1 w1 where d: "delete_repo P org tok name (println (Deleting i n name) w) = (r1, w1)"
      by (cases "delete_repo P org tok name (println (Deleting i n name) w)")
    show ?thesis
    proof (cases r1)
      case (Inl e1)
      with Cons.prems Inr d delete_repo_raises [of P org tok name _ e1 w1] show ?thesis
        by auto
    next
      case r: (Inr ok_msg)
      with Cons.prems Inr d show ?thesis
        by (cases ok_msg) (auto split: if_splits dest: Cons.IH)
    qed
  qed
qed

lemma acme_load:
  "load_env_from_file (acme_world inp) = (Inr (), println EnvFileNotFound (acme_world inp))"
  by (simp add: load_env_from_file_def acme_world_def)

lemma acme_vars:
  "get_env_var (lit ''GITHUB_ORG_NAME'') (println EnvFileNotFound (acme_world inp)) = Inr (lit ''acme'')"
  "get_env_var (lit ''GITHUB_PAT'') (println EnvFileNotFound (acme_world inp)) = Inr (lit ''t'')"
  by (simp_all add: get_env_var_def acme_world_def println_def)

lemma acme_list_run:
  "list_all_repos acme_platform org tok w =
     Some (Inr acme_repos,
           w\<lparr>stdout := stdout w @ [Fetching org, FetchedPage 1 3 3],
             server := (),
             sent := sent w @ [GET_request org tok 1]\<rparr>)"
  unfolding list_all_repos_def
  by (subst list_loop.simps)
     (simp add: acme_defs GET_request_def per_page_def)

lemma acme_display:
  "display_repos 1 acme_repos
     (println (Found (length acme_repos))
        ((println (TargetOrg (lit ''acme'')) (println EnvFileNotFound (acme_world inp)))
           \<lparr>stdout := stdout (println (TargetOrg (lit ''acme''))
                                (println EnvFileNotFound (acme_world inp)))
                        @ [Fetching (lit ''acme''), FetchedPage 1 3 3],
             server := (),
             sent := sent (println (TargetOrg (lit ''acme''))
                             (println EnvFileNotFound (acme_world inp)))
                       @ [GET_request (lit ''acme'') (lit ''t'') 1]\<rparr>))
   = (Inr (), acme_listed inp)"
  by (simp add: acme_repos_def acme_world_def acme_listed_def println_def)

lemma main_completed:
  assumes "load_env_from_file w0 = (Inr (), w1)"
    and "get_env_var (lit ''GITHUB_ORG_NAME'') w1 = Inr org"
    and "get_env_var (lit ''GITHUB_PAT'') w1 = Inr tok"
    and "list_all_repos P org tok (println (TargetOrg org) w1) = Some (Inr repos, w2)"
    and "repos \<noteq> []"
    and "display_repos 1 repos (println (Found (length repos)) w2) = (Inr (), w3)"
    and "confirm_deletion (length repos) org w3 = (Inr True, w4)"
    and "delete_loop P org tok (length repos) 1 repos (0, 0) (println DeletingHeader w4)
           = (Inr (success_count, fail_count), w5)"
  shows "main P w0 = Some (Inr (), println (Summary (length repos) success_count fail_count) w5)"
  using assms by (simp add: main_def)

lemma acme_repos_nonempty: "acme_repos \<noteq> []"
  by (simp add: acme_repos_def)

lemma acme_confirm:
  "confirm_deletion (length acme_repos) (lit ''acme'') (acme_listed [Line answer])
     = (Inr (strip answer = lit ''DELETE ALL''),
        snd (confirm_deletion (length acme_repos) (lit ''acme'') (acme_listed [Line answer])))"
  using confirm_deletion_line [of "acme_listed [Line answer]" answer "[]" "length acme_repos" "lit ''acme''"]
  by (simp add: prod_eq_iff acme_listed_def)

text \<open>
  Claim C6. When the run comes to \<^verbatim>\<open>confirm_deletion\<close> and it returns \<^verbatim>\<open>False\<close>, the script ends
  there with exit status 1, and every request it has sent is a \<^verbatim>\<open>GET\<close> of the listing: no
  deletion request is sent before a confirmation that returns \<^verbatim>\<open>True\<close>.
\<close>

theorem declined_confirmation_aborts:
  assumes "load_env_from_file w0 = (Inr (), w1)"
    and "get_env_var (lit ''GITHUB_ORG_NAME'') w1 = Inr org"
    and "get_env_var (lit ''GITHUB_PAT'') w1 = Inr tok"
    and "list_all_repos P org tok (println (TargetOrg org) w1) = Some (Inr repos, w2)"
    and "repos \<noteq> []"
    and "display_repos 1 repos (println (Found (length repos)) w2) = (Inr (), w3)"
    and "confirm_deletion (length repos) org w3 = (Inr False, w4)"
  shows "script P w0 = Some (1, w4)
         \<and> (\<exists>new. sent w4 = sent w0 @ new \<and> (\<forall>q\<in>set new. verb q = lit ''GET''))"
proof -
  have "main P w0 = Some (Inl (SystemExit (ExitCode 1)), w4)"
    using assms by (simp add: main_def)
  then have exit: "script P w0 = Some (1, w4)"
    by (simp add: script_def)
  have s1: "sent w1 = sent w0"
    using assms(1) load_env_from_file_sent [of w0] by simp
  from list_all_repos_only_GET [OF assms(4)] obtain new where
    new: "sent w2 = sent w1 @ new" "\<forall>q\<in>set new. verb q = lit ''GET''"
    by (auto simp: println_def)
  have s3: "sent w3 = sent w2"
    using assms(6) display_repos_sent [of 1 repos "println (Found (length repos)) w2"]
    by (simp add: println_def)
  have s4: "sent w4 = sent w3"
    using assms(7) confirm_deletion_sent [of "length repos" org w3] by simp
  from exit s1 new s3 s4 show ?thesis
    by auto
qed

theorem declined_confirmation_aborts_witness:
  "map_option fst (script acme_platform (acme_world [Line (lit ''yes'')])) = Some 1
   \<and> map_option (sent \<circ> snd) (script acme_platform (acme_world [Line (lit ''yes'')]))
     = Some [GET_request (lit ''acme'') (lit ''t'') 1]"
proof -
  let ?w4 = "snd (confirm_deletion (length acme_repos) (lit ''acme'') (acme_listed [Line (lit ''yes'')]))"
  have no: "strip (lit ''yes'') \<noteq> lit ''DELETE ALL''"
    by (simp add: strip_def strip_with_def isspace_def)
  have c: "confirm_deletion (length acme_repos) (lit ''acme'') (acme_listed [Line (lit ''yes'')])
             = (Inr False, ?w4)"
    using acme_confirm [of "lit ''yes''"] no by simp
  from declined_confirmation_aborts
         [OF acme_load acme_vars acme_list_run acme_repos_nonempty acme_display c]
  have "script acme_platform (acme_world [Line (lit ''yes'')]) = Some (1, ?w4)"
    by simp
  then show ?thesis
    by (simp add: confirm_deletion_sent) (simp add: acme_listed_def)
qed

text \<open>
  Claim C1, as the script has it. A run that comes to the deletion loop ends with exit status
  0 when the loop runs through the batch, whatever the count of failed deletions in the
  summary it prints, and with exit status 1 when the loop is left by an exception or an
  interrupt. The count of failures is printed and has no part in the exit status.
\<close>

theorem deletion_phase_exit_status:
  assumes "load_env_from_file w0 = (Inr (), w1)"
    and "get_env_var (lit ''GITHUB_ORG_NAME'') w1 = Inr org"
    and "get_env_var (lit ''GITHUB_PAT'') w1 = Inr tok"
    and "list_all_repos P org tok (println (TargetOrg org) w1) = Some (Inr repos, w2)"
    and "repos \<noteq> []"
    and "display_repos 1 repos (println (Found (length repos)) w2) = (Inr (), w3)"
    and "confirm_deletion (length repos) org w3 = (Inr True, w4)"
    and "delete_loop P org tok (length repos) 1 repos (0, 0) (println DeletingHeader w4) = (r, w5)"
  shows "(\<forall>success_count fail_count. r = Inr (success_count, fail_count) \<longrightarrow>
            script P w0 = Some (0, println (Summary (length repos) success_count fail_count) w5))
         \<and> (\<forall>e. r = Inl e \<longrightarrow> map_option fst (script P w0) = Some 1)"
proof (intro conjI allI impI)
  fix success_count fail_count
  assume "r = Inr (success_count, fail_count)"
  with assms have "main P w0 = Some (Inr (), println (Summary (length repos) success_count fail_count) w5)"
    by (simp add: main_def)
  then show "script P w0 = Some (0, println (Summary (length repos) success_count fail_count) w5)"
    by (simp add: script_def)
next
  fix e assume r: "r = Inl e"
  with assms have m: "main P w0 = Some (Inl e, w5)"
    by (simp add: main_def)
  from r assms(8) delete_loop_raises [of P org tok "length repos" 1 repos 0 0 _ e w5]
  have "e = AttributeError \<or> e = UnicodeDecodeError \<or> e = URLError \<or> e = KeyboardInterrupt
        \<or> e = RecursionError \<or> e = ValueError"
    by simp
  with m show "map_option fst (script P w0) = Some 1"
    by (auto simp: script_def)
qed


theorem deletion_phase_exit_status_witness:
  "map_option fst (script acme_platform (acme_world [Line (lit ''DELETE ALL'')])) = Some 0
   \<and> map_option (last \<circ> stdout \<circ> snd)
        (script acme_platform (acme_world [Line (lit ''DELETE ALL'')]))
     = Some (Summary 3 2 1)"
proof -
  let ?w4 = "snd (confirm_deletion (length acme_repos) (lit ''acme'')
                    (acme_listed [Line (lit ''DELETE ALL'')]))"
  let ?run = "delete_loop acme_platform (lit ''acme'') (lit ''t'') (length acme_repos) 1 acme_repos
                (0, 0) (println DeletingHeader ?w4)"
  have yes: "strip (lit ''DELETE ALL'') = lit ''DELETE ALL''"
    by (simp add: strip_def strip_with_def isspace_def)
  have c: "confirm_deletion (length acme_repos) (lit ''acme'') (acme_listed [Line (lit ''DELETE ALL'')])
             = (Inr True, ?w4)"
    using acme_confirm [of "lit ''DELETE ALL''"] yes by simp
  have n: "length acme_repos = 3"
    by (simp add: acme_repos_def)
  have d: "?run = (Inr (2, 1), snd ?run)"
    using acme_delete_run [of "println DeletingHeader ?w4"] by (simp add: prod_eq_iff n)
  from deletion_phase_exit_status
         [OF acme_load acme_vars acme_list_run acme_repos_nonempty acme_display c d]
  have "script acme_platform (acme_world [Line (lit ''DELETE ALL'')])
          = Some (0, println (Summary (length acme_repos) 2 1) (snd ?run))"
    by simp
  then show ?thesis
    by (simp add: println_def n)
qed

text \<open>
  The organization with three repositories, the deletion of one of which fails: the summary
  counts one failure and the exit status is 0.
\<close>

theorem deletion_phase_exit_status_counterexample:
  "map_option (\<lambda>(code, w). (code, last (stdout w)))
     (script acme_platform (acme_world [Line (lit ''DELETE ALL'')]))
   = Some (0, Summary 3 2 1)"
proof -
  let ?w4 = "snd (confirm_deletion (length acme_repos) (lit ''acme'')
                    (acme_listed [Line (lit ''DELETE ALL'')]))"
  let ?run = "delete_loop acme_platform (lit ''acme'') (lit ''t'') (length acme_repos) 1 acme_repos
                (0, 0) (println DeletingHeader ?w4)"
  have yes: "strip (lit ''DELETE ALL'') = lit ''DELETE ALL''"
    by (simp add: strip_def strip_with_def isspace_def)
  have c: "confirm_deletion (length acme_repos) (lit ''acme'') (acme_listed [Line (lit ''DELETE ALL'')])
             = (Inr True, ?w4)"
    using acme_confirm [of "lit ''DELETE ALL''"] yes by simp
  have n: "length acme_repos = 3"
    by (simp add: acme_repos_def)
  have d: "?run = (Inr (2, 1), snd ?run)"
    using acme_delete_run [of "println DeletingHeader ?w4"] by (simp add: prod_eq_iff n)
  from main_completed
         [OF acme_load acme_vars acme_list_run acme_repos_nonempty acme_display c d]
  have "main acme_platform (acme_world [Line (lit ''DELETE ALL'')])
          = Some (Inr (), println (Summary (length acme_repos) 2 1) (snd ?run))"
    by simp
  then show ?thesis
    by (simp add: script_def println_def n)
qed

end
